theory Spec2Isabelle
  imports Complex_Main "HOL-Library.Monad_Syntax"
begin

section \<open>InkFlow: pressure-simulated brush strokes\<close>

text \<open>
  The repository's numeric code works on JavaScript numbers. They are modelled as
  \<^typ>\<open>real\<close>: rounding and overflow are left out. What a real number cannot
  represent is the outcome of a division by zero (\<open>Infinity\<close>, \<open>-Infinity\<close> or
  \<open>NaN\<close> in JavaScript), so every division whose divisor is a variable goes through
  \<open>jsDiv\<close>, and \<open>None\<close> stands for such a non-finite result. Divisions by a
  literal (\<open>/ 2\<close>, \<open>/ 2.5\<close>) are written with the division of \<^typ>\<open>real\<close>.
\<close>

subsection \<open>Data model (types.ts)\<close>

record Point =
  px :: real
  py :: real
  pressure :: "real option"
  time :: "real option"

record StrokeSettings =
  ssize :: real
  thinning :: real
  smoothing :: real
  color :: string
  simulatePressure :: bool

record DrawnStroke =
  ds_points :: "Point list"
  ds_color :: string
  ds_settings :: StrokeSettings

datatype ToolType = PEN | ERASER

subsection \<open>Numbers and vectors (utils/ink)\<close>

definition jsDiv :: "real \<Rightarrow> real \<Rightarrow> real option" where
  "jsDiv a b = (if b = 0 then None else Some (a / b))"

text \<open>\<open>Math.hypot\<close> of two arguments.\<close>

definition hypot :: "real \<Rightarrow> real \<Rightarrow> real" where
  "hypot a b = sqrt (a * a + b * b)"

text \<open>The object literal \<open>{ x: a, y: b }\<close>: a point without pressure and time.\<close>

definition vec :: "real \<Rightarrow> real \<Rightarrow> Point" where
  "vec a b = \<lparr>px = a, py = b, pressure = None, time = None\<rparr>"

definition distP :: "Point \<Rightarrow> Point \<Rightarrow> real" where
  "distP a b = hypot (px a - px b) (py a - py b)"

definition lerp :: "real \<Rightarrow> real \<Rightarrow> real \<Rightarrow> real" where
  "lerp a b t = a + (b - a) * t"

definition add :: "Point \<Rightarrow> Point \<Rightarrow> Point" where
  "add a b = vec (px a + px b) (py a + py b)"

definition sub :: "Point \<Rightarrow> Point \<Rightarrow> Point" where
  "sub a b = vec (px a - px b) (py a - py b)"

definition mul :: "Point \<Rightarrow> real \<Rightarrow> Point" where
  "mul a n = vec (px a * n) (py a * n)"

definition perp :: "Point \<Rightarrow> Point" where
  "perp a = vec (py a) (- px a)"

definition normalizeP :: "Point \<Rightarrow> Point option" where
  "normalizeP a =
     (let d = hypot (px a) (py a)
      in if d = 0 then Some (vec 0 0)
         else do { nx \<leftarrow> jsDiv (px a) d; ny \<leftarrow> jsDiv (py a) d; Some (vec nx ny) })"

subsection \<open>Outline of a stroke (getStrokeOutlinePoints)\<close>

definition taperLength :: "nat \<Rightarrow> nat" where
  "taperLength n = min 5 (n div 3)"

text \<open>
  The factor that lines 64 to 74 multiply the pressure with at index \<open>i\<close> of \<open>n\<close>
  points; where neither branch is taken the pressure is left as it is (factor 1).
\<close>

definition taperFactor :: "nat \<Rightarrow> nat \<Rightarrow> real option" where
  "taperFactor i n =
     (let tl = taperLength n
      in if i < tl then
           do { t \<leftarrow> jsDiv (real i) (real tl); Some (1 - (1 - t) ^ 3) }
         else if int i > int n - 1 - int tl then
           do { t \<leftarrow> jsDiv (real_of_int (int n - 1 - int i)) (real tl);
                Some (1 - (1 - t) ^ 3) }
         else Some 1)"

text \<open>The variables that the loop carries from one iteration to the next.\<close>

record LoopState =
  prevPressure :: real
  prevVector :: Point
  leftPts :: "Point list"
  rightPts :: "Point list"

text \<open>\<open>curr.pressure ?? 0.5\<close>: the default applies to an absent pressure only.\<close>

definition rawPressure :: "Point \<Rightarrow> real" where
  "rawPressure cur = (case pressure cur of None \<Rightarrow> 1 / 2 | Some v \<Rightarrow> v)"

text \<open>Lines 60 to 78: the pressure of point \<open>i\<close> after tapering and smoothing.\<close>

definition stepPressure :: "Point list \<Rightarrow> nat \<Rightarrow> LoopState \<Rightarrow> real option" where
  "stepPressure pts i st =
     do { f \<leftarrow> taperFactor i (length pts);
          Some (lerp (prevPressure st) (rawPressure (pts ! i) * f) (1 / 2)) }"

text \<open>Line 83.\<close>

definition strokeWidth :: "StrokeSettings \<Rightarrow> real \<Rightarrow> real" where
  "strokeWidth opts p = ssize opts * (1 - thinning opts * (1 - p))"

text \<open>Lines 86 to 91: the direction at point \<open>i\<close>.\<close>

definition stepVector :: "Point list \<Rightarrow> nat \<Rightarrow> LoopState \<Rightarrow> Point option" where
  "stepVector pts i st =
     (if int i < int (length pts) - 1 then normalizeP (sub (pts ! (i + 1)) (pts ! i))
      else Some (prevVector st))"

text \<open>Line 94: the direction averaged with the one of the previous iteration.\<close>

definition stepSmoothVector :: "Point list \<Rightarrow> nat \<Rightarrow> LoopState \<Rightarrow> Point option" where
  "stepSmoothVector pts i st =
     do { v \<leftarrow> stepVector pts i st; normalizeP (add v (prevVector st)) }"

text \<open>One iteration of the loop of lines 56 to 102.\<close>

definition outlineStep ::
  "Point list \<Rightarrow> StrokeSettings \<Rightarrow> nat \<Rightarrow> LoopState \<Rightarrow> LoopState option" where
  "outlineStep pts opts i st =
     do { p \<leftarrow> stepPressure pts i st;
          v \<leftarrow> stepVector pts i st;
          sv \<leftarrow> stepSmoothVector pts i st;
          let cur = pts ! i;
              offset = mul (perp sv) (strokeWidth opts p / 2)
          in Some \<lparr>prevPressure = p, prevVector = v,
                   leftPts = leftPts st @ [sub cur offset],
                   rightPts = rightPts st @ [add cur offset]\<rparr> }"

text \<open>The loop, over the indices it still has to visit.\<close>

fun outlineLoop ::
  "Point list \<Rightarrow> StrokeSettings \<Rightarrow> nat list \<Rightarrow> LoopState \<Rightarrow> LoopState option" where
  "outlineLoop pts opts [] st = Some st"
| "outlineLoop pts opts (i # is) st =
     (case outlineStep pts opts i st of
        None \<Rightarrow> None
      | Some st' \<Rightarrow> outlineLoop pts opts is st')"

text \<open>\<open>points[0].pressure || 0.5\<close>: the default applies to every falsy value,
  so to an absent pressure and to a pressure of 0.\<close>

definition seedPressure :: "Point \<Rightarrow> real" where
  "seedPressure p =
     (case pressure p of None \<Rightarrow> 1 / 2 | Some v \<Rightarrow> if v = 0 then 1 / 2 else v)"

text \<open>Lines 49 to 53: the state before the first iteration (at least 2 points).\<close>

definition initState :: "Point list \<Rightarrow> LoopState option" where
  "initState pts =
     do { v0 \<leftarrow> normalizeP (sub (pts ! 1) (pts ! 0));
          Some \<lparr>prevPressure = seedPressure (pts ! 0), prevVector = v0,
                leftPts = [], rightPts = []\<rparr> }"

text \<open>The state of the loop when it reaches index \<open>i\<close>.\<close>

definition stateAt :: "Point list \<Rightarrow> StrokeSettings \<Rightarrow> nat \<Rightarrow> LoopState option" where
  "stateAt pts opts i = do { st0 \<leftarrow> initState pts; outlineLoop pts opts [0..<i] st0 }"

definition getStrokeOutlinePoints :: "Point list \<Rightarrow> StrokeSettings \<Rightarrow> Point list option" where
  "getStrokeOutlinePoints pts opts =
     (if length pts < 2 then Some []
      else do { st \<leftarrow> stateAt pts opts (length pts);
                Some (leftPts st @ rev (rightPts st)) })"

subsection \<open>Path of an outline (getSvgPathFromStroke)\<close>

text \<open>
  The path is the string that the source builds. \<open>toFixed(2)\<close>, which prints a number
  with two decimals, is the parameter \<open>tf\<close>.
\<close>

text \<open>Lines 122 to 133: the text appended for index \<open>i\<close>.\<close>

definition svgSegment :: "(real \<Rightarrow> string) \<Rightarrow> Point list \<Rightarrow> nat \<Rightarrow> string" where
  "svgSegment tf strokePoints i =
     (let len = length strokePoints;
          p1 = strokePoints ! i;
          p2 = strokePoints ! ((i + 1) mod len);
          mid = vec ((px p1 + px p2) / 2) ((py p1 + py p2) / 2)
      in '' Q '' @ tf (px p1) @ '' '' @ tf (py p1) @ '', '' @ tf (px mid) @ '' '' @ tf (py mid))"

fun svgLoop :: "(real \<Rightarrow> string) \<Rightarrow> Point list \<Rightarrow> nat list \<Rightarrow> string \<Rightarrow> string" where
  "svgLoop tf strokePoints [] d = d"
| "svgLoop tf strokePoints (i # is) d = svgLoop tf strokePoints is (d @ svgSegment tf strokePoints i)"

definition getSvgPathFromStroke :: "(real \<Rightarrow> string) \<Rightarrow> Point list \<Rightarrow> string" where
  "getSvgPathFromStroke tf strokePoints =
     (if length strokePoints = 0 then []
      else let len = length strokePoints;
               d = ''M '' @ tf (px (strokePoints ! 0)) @ '' '' @ tf (py (strokePoints ! 0))
           in svgLoop tf strokePoints [1..<len] d @ '' Z'')"

text \<open>
  The serializer as the specification words it: a starting point, a list of curve
  segments (control point and anchor) and a closing instruction; \<open>renderPath\<close> is
  their text.
\<close>

record PathSegment =
  control :: "real \<times> real"
  anchor :: "real \<times> real"

definition serialize_spec :: "Point list \<Rightarrow> PathSegment list" where
  "serialize_spec outline =
     map (\<lambda>i. \<lparr>control = (px (outline ! i), py (outline ! i)),
               anchor = ((px (outline ! i) + px (outline ! ((i + 1) mod length outline))) / 2,
                         (py (outline ! i) + py (outline ! ((i + 1) mod length outline))) / 2)\<rparr>)
       [1..<length outline]"

definition renderSegment :: "(real \<Rightarrow> string) \<Rightarrow> PathSegment \<Rightarrow> string" where
  "renderSegment tf seg =
     '' Q '' @ tf (fst (control seg)) @ '' '' @ tf (snd (control seg)) @ '', '' @
     tf (fst (anchor seg)) @ '' '' @ tf (snd (anchor seg))"

definition renderPath :: "(real \<Rightarrow> string) \<Rightarrow> real \<times> real \<Rightarrow> PathSegment list \<Rightarrow> string" where
  "renderPath tf start segs =
     ''M '' @ tf (fst start) @ '' '' @ tf (snd start) @ concat (map (renderSegment tf) segs) @ '' Z''"

subsection \<open>Input points with simulated pressure (Canvas, getPoint)\<close>

text \<open>What \<open>getPoint\<close> reads of a pointer event and of the canvas rectangle.\<close>

record PointerEvt =
  clientX :: real
  clientY :: real
  evPressure :: real

record DOMRect =
  rectLeft :: real
  rectTop :: real

text \<open>\<open>last.time || 0\<close>: 0 for an absent time and for a time of 0.\<close>

definition priorTime :: "Point \<Rightarrow> real" where
  "priorTime lst = (case time lst of None \<Rightarrow> 0 | Some v \<Rightarrow> if v = 0 then 0 else v)"

text \<open>Lines 42 to 47 for the sample at \<open>(x, y)\<close> taken at time \<open>t\<close>;
  \<open>dt || 1\<close> is 1 when \<open>dt\<close> is 0.\<close>

definition pointerVelocity :: "real \<Rightarrow> real \<Rightarrow> real \<Rightarrow> Point \<Rightarrow> real option" where
  "pointerVelocity x y t lst =
     (let dst = hypot (x - px lst) (y - py lst);
          dt = t - priorTime lst
      in jsDiv dst (if dt = 0 then 1 else dt))"

text \<open>Lines 52 to 56.\<close>

definition velocityPressure :: "real \<Rightarrow> real" where
  "velocityPressure velocity =
     (let maxV = 5 / 2;
          normalizedV = min velocity maxV / maxV
      in max (1 / 10) (min 1 (1 - normalizedV)))"

text \<open>\<open>getPoint\<close>; the result of \<open>performance.now()\<close> is the parameter \<open>t\<close>.\<close>

definition getPoint :: "PointerEvt \<Rightarrow> DOMRect \<Rightarrow> real \<Rightarrow> Point list \<Rightarrow> Point option" where
  "getPoint e rect t pointsBuffer =
     (let x = clientX e - rectLeft rect;
          y = clientY e - rectTop rect
      in do { p \<leftarrow> (if evPressure e = 0 \<or> evPressure e = 1 / 2 then
                      (if length pointsBuffer > 0 then
                         do { velocity \<leftarrow>
                                pointerVelocity x y t (pointsBuffer ! (length pointsBuffer - 1));
                              Some (velocityPressure velocity) }
                       else Some (1 / 2))
                    else Some (evPressure e));
              Some \<lparr>px = x, py = y, pressure = Some p, time = Some t\<rparr> })"

subsection \<open>Committing a stroke (Canvas and App)\<close>

text \<open>
  The state of \<open>App\<close> (history, redo stack, settings, tool) and of \<open>Canvas\<close> (the
  points of the stroke being drawn, and whether one is being drawn).
\<close>

record AppState =
  history :: "DrawnStroke list"
  redoStack :: "DrawnStroke list"
  settings :: StrokeSettings
  tool :: ToolType
  currentPoints :: "Point list"
  isDrawing :: bool

text \<open>The settings that \<open>App\<close> starts with.\<close>

definition INITIAL_SETTINGS :: StrokeSettings where
  "INITIAL_SETTINGS =
     \<lparr>ssize = 14, thinning = 3 / 4, smoothing = 1 / 2, color = ''#1c1917'',
      simulatePressure = True\<rparr>"

definition handleHistoryChange :: "DrawnStroke list \<Rightarrow> AppState \<Rightarrow> AppState" where
  "handleHistoryChange newHistory s = s\<lparr>history := newHistory, redoStack := []\<rparr>"

definition newStroke :: "AppState \<Rightarrow> DrawnStroke" where
  "newStroke s =
     \<lparr>ds_points = currentPoints s,
      ds_color = (if tool s = ERASER then ''eraser'' else color (settings s)),
      ds_settings = settings s\<rparr>"

definition handlePointerUp :: "AppState \<Rightarrow> AppState" where
  "handlePointerUp s =
     (if \<not> isDrawing s then s
      else let s1 = s\<lparr>isDrawing := False\<rparr>;
               s2 = (if length (currentPoints s1) > 1
                     then handleHistoryChange (history s1 @ [newStroke s1]) s1
                     else s1)
           in s2\<lparr>currentPoints := []\<rparr>)"

text \<open>What \<open>drawStrokeToCtx\<close> does to the canvas: nothing, or fill a path with a colour.\<close>

datatype DrawResult = Nothing | Fill string string

definition drawStrokeToCtx ::
  "(real \<Rightarrow> string) \<Rightarrow> Point list \<Rightarrow> string \<Rightarrow> StrokeSettings \<Rightarrow> DrawResult option" where
  "drawStrokeToCtx tf pts col opts =
     (if length pts < 2 then Some Nothing
      else do { outline \<leftarrow> getStrokeOutlinePoints pts opts;
                Some (Fill (getSvgPathFromStroke tf outline) col) })"

section \<open>Properties\<close>

subsection \<open>Vectors, taper and the loop: auxiliary facts\<close>

lemma normalizeP_cases:
  "normalizeP a =
     (if hypot (px a) (py a) = 0 then Some (vec 0 0)
      else Some (vec (px a / hypot (px a) (py a)) (py a / hypot (px a) (py a))))"
  by (simp add: normalizeP_def jsDiv_def Let_def)

lemma normalizeP_total: "\<exists>v. normalizeP a = Some v"
  by (simp add: normalizeP_cases)

lemma hypot_eq_0_iff: "hypot a b = 0 \<longleftrightarrow> a = 0 \<and> b = 0"
  by (simp add: hypot_def)

lemma hypot_nonneg: "0 \<le> hypot a b"
  by (simp add: hypot_def)

lemma hypot_scale: "hypot (a * c) (b * c) = hypot a b * \<bar>c\<bar>"
proof -
  have "a * c * (a * c) + b * c * (b * c) = (a * a + b * b) * (c * c)"
    by (simp add: algebra_simps)
  then show ?thesis
    by (simp add: hypot_def real_sqrt_mult)
qed

lemma normalizeP_unit:
  assumes "normalizeP a = Some v" and "v \<noteq> vec 0 0"
  shows "hypot (px v) (py v) = 1"
proof -
  let ?d = "hypot (px a) (py a)"
  from assms have d: "?d \<noteq> 0"
    by (auto simp: normalizeP_cases split: if_splits)
  with assms have v: "v = vec (px a / ?d) (py a / ?d)"
    by (simp add: normalizeP_cases)
  have "hypot (px a * (1 / ?d)) (py a * (1 / ?d)) = ?d * \<bar>1 / ?d\<bar>"
    by (rule hypot_scale)
  also have "\<dots> = 1" using d hypot_nonneg [of "px a" "py a"] by simp
  finally show ?thesis by (simp add: v vec_def)
qed

lemma taperLength_pos: "3 \<le> n \<Longrightarrow> 0 < taperLength n"
  by (simp add: taperLength_def)

lemma taperFactor_total: "i < n \<Longrightarrow> \<exists>f. taperFactor i n = Some f"
  by (auto simp: taperFactor_def jsDiv_def Let_def)


lemma outlineStep_Some:
  assumes "i < length pts"
  shows "\<exists>p v sv. stepPressure pts i st = Some p \<and> stepVector pts i st = Some v \<and>
           stepSmoothVector pts i st = Some sv \<and>
           outlineStep pts opts i st =
             Some \<lparr>prevPressure = p, prevVector = v,
                   leftPts = leftPts st @ [sub (pts ! i) (mul (perp sv) (strokeWidth opts p / 2))],
                   rightPts = rightPts st @ [add (pts ! i) (mul (perp sv) (strokeWidth opts p / 2))]\<rparr>"
proof -
  obtain f where f: "taperFactor i (length pts) = Some f"
    using taperFactor_total [OF assms] by blast
  then obtain p where p: "stepPressure pts i st = Some p"
    by (simp add: stepPressure_def)
  obtain v where v: "stepVector pts i st = Some v"
    using normalizeP_total [of "sub (pts ! (i + 1)) (pts ! i)"]
    by (cases "int i < int (length pts) - 1") (auto simp: stepVector_def)
  obtain sv where sv: "stepSmoothVector pts i st = Some sv"
    using normalizeP_total [of "add v (prevVector st)"] v
    by (auto simp: stepSmoothVector_def)
  show ?thesis
    by (simp add: outlineStep_def p v sv Let_def)
qed

lemma outlineLoop_append:
  "outlineLoop pts opts (xs @ ys) st =
     (case outlineLoop pts opts xs st of
        None \<Rightarrow> None
      | Some st' \<Rightarrow> outlineLoop pts opts ys st')"
  by (induction xs arbitrary: st) (auto split: option.splits)

lemma outlineLoop_Some:
  assumes "\<forall>i \<in> set js. i < length pts"
  shows "\<exists>st' l r. outlineLoop pts opts js st = Some st' \<and>
           leftPts st' = leftPts st @ l \<and> rightPts st' = rightPts st @ r \<and>
           length l = length js \<and> length r = length js"
  using assms
proof (induction js arbitrary: st)
  case Nil
  then show ?case by simp
next
  case (Cons j js)
  from Cons.prems have j: "j < length pts" by simp
  obtain st1 where st1: "outlineStep pts opts j st = Some st1"
    and l1: "\<exists>a. leftPts st1 = leftPts st @ [a]" and r1: "\<exists>b. rightPts st1 = rightPts st @ [b]"
    using outlineStep_Some [OF j, of st opts] by force
  from Cons.prems have "\<forall>i \<in> set js. i < length pts" by simp
  from Cons.IH [OF this, of st1]
  obtain st' l r where "outlineLoop pts opts js st1 = Some st'"
    "leftPts st' = leftPts st1 @ l" "rightPts st' = rightPts st1 @ r"
    "length l = length js" "length r = length js"
    by blast
  with st1 l1 r1 show ?case by auto
qed

lemma initState_total: "\<exists>st. initState pts = Some st \<and> leftPts st = [] \<and> rightPts st = []"
  using normalizeP_total [of "sub (pts ! 1) (pts ! 0)"]
  by (auto simp: initState_def)

lemma stateAt_total:
  assumes "i \<le> length pts"
  shows "\<exists>st. stateAt pts opts i = Some st \<and> length (leftPts st) = i \<and> length (rightPts st) = i"
proof -
  obtain st0 where st0: "initState pts = Some st0" "leftPts st0 = []" "rightPts st0 = []"
    using initState_total by blast
  have "\<forall>j \<in> set [0..<i]. j < length pts" using assms by simp
  from outlineLoop_Some [OF this, of opts st0] st0
  show ?thesis by (auto simp: stateAt_def)
qed

lemma stateAt_Suc:
  "stateAt pts opts (Suc i) =
     (case stateAt pts opts i of None \<Rightarrow> None | Some st \<Rightarrow> outlineStep pts opts i st)"
  by (cases "initState pts")
     (auto simp: stateAt_def outlineLoop_append split: option.splits)

lemma stateAt_prefix:
  assumes "i \<le> n" and "n \<le> length pts"
    and "stateAt pts opts i = Some st" and "stateAt pts opts n = Some st'"
  shows "\<exists>l r. leftPts st' = leftPts st @ l \<and> rightPts st' = rightPts st @ r"
proof -
  obtain st0 where st0: "initState pts = Some st0"
    using initState_total by blast
  have split: "[0..<n] = [0..<i] @ [i..<n]"
    using assms(1) by (metis le_add_diff_inverse upt_add_eq_append zero_le)
  have loop_i: "outlineLoop pts opts [0..<i] st0 = Some st"
    using assms(3) st0 by (simp add: stateAt_def)
  have "outlineLoop pts opts [0..<n] st0 = Some st'"
    using assms(4) st0 by (simp add: stateAt_def)
  then have rest: "outlineLoop pts opts [i..<n] st = Some st'"
    by (simp add: split outlineLoop_append loop_i)
  have "\<forall>j \<in> set [i..<n]. j < length pts" using assms(2) by simp
  from outlineLoop_Some [OF this, of opts st] rest
  show ?thesis by auto
qed

lemma outline_at:
  assumes n: "2 \<le> length pts" and i: "i < length pts"
  shows "\<exists>st p sv out.
           stateAt pts opts i = Some st \<and> stepPressure pts i st = Some p \<and>
           stepSmoothVector pts i st = Some sv \<and>
           getStrokeOutlinePoints pts opts = Some out \<and> length out = 2 * length pts \<and>
           out ! i = sub (pts ! i) (mul (perp sv) (strokeWidth opts p / 2)) \<and>
           out ! (2 * length pts - 1 - i) = add (pts ! i) (mul (perp sv) (strokeWidth opts p / 2))"
proof -
  let ?n = "length pts"
  obtain st where st: "stateAt pts opts i = Some st"
    and lst: "length (leftPts st) = i" "length (rightPts st) = i"
    using stateAt_total [of i pts opts] i by auto
  obtain p v sv where p: "stepPressure pts i st = Some p"
    and sv: "stepSmoothVector pts i st = Some sv"
    and step: "outlineStep pts opts i st =
             Some \<lparr>prevPressure = p, prevVector = v,
                   leftPts = leftPts st @ [sub (pts ! i) (mul (perp sv) (strokeWidth opts p / 2))],
                   rightPts = rightPts st @ [add (pts ! i) (mul (perp sv) (strokeWidth opts p / 2))]\<rparr>"
    using outlineStep_Some [OF i, of st opts] by blast
  let ?st1 = "\<lparr>prevPressure = p, prevVector = v,
                   leftPts = leftPts st @ [sub (pts ! i) (mul (perp sv) (strokeWidth opts p / 2))],
                   rightPts = rightPts st @ [add (pts ! i) (mul (perp sv) (strokeWidth opts p / 2))]\<rparr>"
  have st1: "stateAt pts opts (Suc i) = Some ?st1"
    by (simp add: stateAt_Suc st step)
  obtain stn where stn: "stateAt pts opts ?n = Some stn"
    and ln: "length (leftPts stn) = ?n" "length (rightPts stn) = ?n"
    using stateAt_total [of ?n pts opts] by auto
  obtain l r where l: "leftPts stn = leftPts ?st1 @ l" and r: "rightPts stn = rightPts ?st1 @ r"
    using stateAt_prefix [OF _ _ st1 stn] i by auto
  have li: "leftPts stn ! i = sub (pts ! i) (mul (perp sv) (strokeWidth opts p / 2))"
    using l lst by (simp add: nth_append)
  have ri: "rightPts stn ! i = add (pts ! i) (mul (perp sv) (strokeWidth opts p / 2))"
    using r lst by (simp add: nth_append)
  let ?out = "leftPts stn @ rev (rightPts stn)"
  have out: "getStrokeOutlinePoints pts opts = Some ?out"
    using n stn by (simp add: getStrokeOutlinePoints_def)
  have len: "length ?out = 2 * ?n" using ln by simp
  have oi: "?out ! i = leftPts stn ! i" using i ln by (simp add: nth_append)
  have "?out ! (2 * ?n - 1 - i) = rev (rightPts stn) ! (?n - 1 - i)"
    using i ln by (simp add: nth_append) 
  also have "\<dots> = rightPts stn ! i"
    using i ln by (simp add: rev_nth)
  finally have oj: "?out ! (2 * ?n - 1 - i) = rightPts stn ! i" .
  show ?thesis
    using st p sv out len oi oj li ri by (intro exI conjI) simp_all
qed

subsection \<open>Length and symmetry of the outline\<close>

text \<open>
  C1: for every list of points, \<open>getStrokeOutlinePoints\<close> returns the empty outline
  when the list has fewer than 2 points, and otherwise an outline with exactly twice as
  many points as the input (one left and one right offset point per input point).
\<close>

theorem outline_length:
  "\<exists>out. getStrokeOutlinePoints pts opts = Some out \<and>
         (if length pts < 2 then out = [] else length out = 2 * length pts)"
proof (cases "length pts < 2")
  case True
  then show ?thesis by (simp add: getStrokeOutlinePoints_def)
next
  case False
  then have "2 \<le> length pts" and "0 < length pts" by linarith+
  from outline_at [OF this, of opts] False show ?thesis by auto
qed

theorem outline_length_witness:
  "\<exists>out. getStrokeOutlinePoints [vec 0 0, vec 1 0, vec 2 0] INITIAL_SETTINGS = Some out \<and>
         length out = 6"
  using outline_length [of "[vec 0 0, vec 1 0, vec 2 0]" INITIAL_SETTINGS] by simp

text \<open>
  C10: for every list of \<open>n \<ge> 2\<close> points and every index \<open>i < n\<close>, the outline
  satisfies \<open>outline[i] + outline[2n-1-i] = 2 \<times> points[i]\<close> in both coordinates: each
  input point is the midpoint of its left and its right offset point.
\<close>

theorem outline_symmetric:
  assumes "2 \<le> length pts" and "i < length pts"
  shows "\<exists>out. getStrokeOutlinePoints pts opts = Some out \<and>
           px (out ! i) + px (out ! (2 * length pts - 1 - i)) = 2 * px (pts ! i) \<and>
           py (out ! i) + py (out ! (2 * length pts - 1 - i)) = 2 * py (pts ! i)"
proof -
  from outline_at [OF assms, of opts]
  obtain p sv out where "getStrokeOutlinePoints pts opts = Some out"
    and "out ! i = sub (pts ! i) (mul (perp sv) (strokeWidth opts p / 2))"
    and "out ! (2 * length pts - 1 - i) = add (pts ! i) (mul (perp sv) (strokeWidth opts p / 2))"
    by blast
  then show ?thesis
    by (simp add: sub_def add_def vec_def)
qed

theorem outline_symmetric_witness:
  "2 \<le> length [vec 0 0, vec 3 4] \<and> 1 < length [vec 0 0, vec 3 4] \<and>
   (\<exists>out. getStrokeOutlinePoints [vec 0 0, vec 3 4] INITIAL_SETTINGS = Some out \<and>
      px (out ! 1) + px (out ! 2) = 6 \<and> py (out ! 1) + py (out ! 2) = 8)"
  using outline_symmetric [of "[vec 0 0, vec 3 4]" 1 INITIAL_SETTINGS] by (simp add: vec_def)

subsection \<open>The taper\<close>

lemma taperFactor_lead:
  assumes "i < taperLength n"
  shows "taperFactor i n = Some (1 - (1 - real i / real (taperLength n)) ^ 3)"
  using assms by (simp add: taperFactor_def jsDiv_def Let_def)

lemma taperLength_le: "3 * taperLength n \<le> n"
  by (simp add: taperLength_def)

lemma taperFactor_trail:
  assumes "3 \<le> n" and "n - 1 - taperLength n < i" and "i \<le> n - 1"
  shows "taperFactor i n = Some (1 - (1 - real (n - 1 - i) / real (taperLength n)) ^ 3)"
proof -
  have tl: "0 < taperLength n" using assms(1) by (rule taperLength_pos)
  have le: "3 * taperLength n \<le> n" by (rule taperLength_le)
  have 1: "\<not> i < taperLength n" using assms tl le by linarith
  have 2: "int i > int n - 1 - int (taperLength n)" using assms tl le by linarith
  have "int (n - 1 - i) = int n - 1 - int i" using assms by linarith
  then have 3: "real_of_int (int n - 1 - int i) = real (n - 1 - i)"
    by (metis of_int_of_nat_eq)
  show ?thesis unfolding taperFactor_def Let_def jsDiv_def 3 using 1 2 tl by simp
qed

lemma taperFactor_mid:
  assumes "3 \<le> n" and "taperLength n \<le> i" and "i \<le> n - 1 - taperLength n"
  shows "taperFactor i n = Some 1"
proof -
  have le: "3 * taperLength n \<le> n" by (rule taperLength_le)
  have 1: "\<not> i < taperLength n" using assms by simp
  have 2: "\<not> int i > int n - 1 - int (taperLength n)" using assms le by linarith
  show ?thesis using 1 2 by (simp add: taperFactor_def Let_def)
qed

lemma ease_mono:
  fixes s t :: real
  assumes "s \<le> t" and "t \<le> 1"
  shows "1 - (1 - s) ^ 3 \<le> 1 - (1 - t) ^ 3"
proof -
  have "(1 - t) ^ 3 \<le> (1 - s) ^ 3"
    using assms by (intro power_mono) simp_all
  then show ?thesis by simp
qed

text \<open>
  C5: for every number \<open>n \<ge> 3\<close> of points the taper factor at index 0 and at index
  \<open>n - 1\<close> is 0; with \<open>taperLength = min(5, floor(n / 3))\<close> the factor does not
  decrease over the leading window (indices below \<open>taperLength\<close>), does not increase
  over the trailing window (indices above \<open>n - 1 - taperLength\<close>), and is 1 everywhere
  between the two windows.
\<close>

theorem taper_profile:
  assumes "3 \<le> n"
  shows "taperLength n = min 5 (n div 3) \<and>
         taperFactor 0 n = Some 0 \<and> taperFactor (n - 1) n = Some 0 \<and>
         (\<forall>i j. i \<le> j \<and> j < taperLength n \<longrightarrow>
            (\<exists>a b. taperFactor i n = Some a \<and> taperFactor j n = Some b \<and> a \<le> b)) \<and>
         (\<forall>i j. n - 1 - taperLength n < i \<and> i \<le> j \<and> j \<le> n - 1 \<longrightarrow>
            (\<exists>a b. taperFactor i n = Some a \<and> taperFactor j n = Some b \<and> b \<le> a)) \<and>
         (\<forall>i. taperLength n \<le> i \<and> i \<le> n - 1 - taperLength n \<longrightarrow> taperFactor i n = Some 1)"
proof -
  let ?tl = "taperLength n"
  have tl: "0 < ?tl" using assms by (rule taperLength_pos)
  have first: "taperFactor 0 n = Some 0"
    using taperFactor_lead [of 0 n] tl by simp
  have last: "taperFactor (n - 1) n = Some 0"
    using taperFactor_trail [of n "n - 1"] assms tl by simp
  have lead: "\<exists>a b. taperFactor i n = Some a \<and> taperFactor j n = Some b \<and> a \<le> b"
    if "i \<le> j \<and> j < ?tl" for i j
  proof -
    from that have i: "i < ?tl" and j: "j < ?tl" by simp_all
    have "real i / real ?tl \<le> real j / real ?tl"
      using that tl by (simp add: divide_right_mono)
    moreover have "real j / real ?tl \<le> 1" using j by simp
    ultimately have "1 - (1 - real i / real ?tl) ^ 3 \<le> 1 - (1 - real j / real ?tl) ^ 3"
      by (rule ease_mono)
    then show ?thesis
      by (simp add: taperFactor_lead [OF i] taperFactor_lead [OF j])
  qed
  have trail: "\<exists>a b. taperFactor i n = Some a \<and> taperFactor j n = Some b \<and> b \<le> a"
    if "n - 1 - ?tl < i \<and> i \<le> j \<and> j \<le> n - 1" for i j
  proof -
    from that have i: "n - 1 - ?tl < i" "i \<le> n - 1" and j: "n - 1 - ?tl < j" "j \<le> n - 1"
      by simp_all
    have "n - 1 - j \<le> n - 1 - i" using that by linarith
    then have "real (n - 1 - j) \<le> real (n - 1 - i)" by (simp only: of_nat_le_iff)
    then have "real (n - 1 - j) / real ?tl \<le> real (n - 1 - i) / real ?tl"
      by (rule divide_right_mono) simp
    moreover have "n - 1 - i \<le> ?tl" using i by linarith
    then have "real (n - 1 - i) / real ?tl \<le> 1" using tl by (simp only: divide_le_eq_1_pos of_nat_0_less_iff of_nat_le_iff)
    ultimately have "1 - (1 - real (n - 1 - j) / real ?tl) ^ 3
        \<le> 1 - (1 - real (n - 1 - i) / real ?tl) ^ 3"
      by (rule ease_mono)
    then show ?thesis
      by (simp add: taperFactor_trail [OF assms i] taperFactor_trail [OF assms j])
  qed
  have mid: "taperFactor i n = Some 1" if "?tl \<le> i \<and> i \<le> n - 1 - ?tl" for i
    using that assms by (simp add: taperFactor_mid)
  show ?thesis
    using first last lead trail mid by (simp add: taperLength_def)
qed

theorem taper_profile_witness:
  "(3::nat) \<le> 9 \<and> taperLength 9 = 3 \<and>
   taperFactor 0 9 = Some 0 \<and> taperFactor 8 9 = Some 0 \<and>
   ((1::nat) \<le> 2 \<and> (2::nat) < taperLength 9 \<and>
      (\<exists>a b. taperFactor 1 9 = Some a \<and> taperFactor 2 9 = Some b \<and> a \<le> b)) \<and>
   (9 - 1 - taperLength 9 < 6 \<and> (6::nat) \<le> 7 \<and> (7::nat) \<le> 9 - 1 \<and>
      (\<exists>a b. taperFactor 6 9 = Some a \<and> taperFactor 7 9 = Some b \<and> b \<le> a)) \<and>
   (taperLength 9 \<le> 4 \<and> (4::nat) \<le> 9 - 1 - taperLength 9 \<and> taperFactor 4 9 = Some 1)"
proof -
  have tl: "taperLength 9 = 3" by (simp add: taperLength_def)
  from taper_profile [of 9] tl show ?thesis by simp
qed

subsection \<open>Width without thinning\<close>

lemma hypot_axis: "hypot a 0 = \<bar>a\<bar>"
  by (simp add: hypot_def)

lemma hypot_neg_swap: "hypot (- (b * w)) (a * w) = hypot a b * \<bar>w\<bar>"
proof -
  have "- (b * w) * - (b * w) + a * w * (a * w) = a * w * (a * w) + b * w * (b * w)"
    by simp
  then have "hypot (- (b * w)) (a * w) = hypot (a * w) (b * w)"
    by (simp add: hypot_def)
  then show ?thesis by (simp add: hypot_scale)
qed

lemma hypot_swap_neg: "hypot (b * w) (- (a * w)) = hypot a b * \<bar>w\<bar>"
proof -
  have "b * w * (b * w) + - (a * w) * - (a * w) = a * w * (a * w) + b * w * (b * w)"
    by simp
  then have "hypot (b * w) (- (a * w)) = hypot (a * w) (b * w)"
    by (simp add: hypot_def)
  then show ?thesis by (simp add: hypot_scale)
qed

lemma distP_left: "distP (sub c (mul (perp sv) w)) c = hypot (px sv) (py sv) * \<bar>w\<bar>"
proof -
  have "distP (sub c (mul (perp sv) w)) c = hypot (- (py sv * w)) (px sv * w)"
    by (simp add: distP_def sub_def mul_def perp_def vec_def)
  then show ?thesis by (simp only: hypot_neg_swap)
qed

lemma distP_right: "distP (add c (mul (perp sv) w)) c = hypot (px sv) (py sv) * \<bar>w\<bar>"
proof -
  have "distP (add c (mul (perp sv) w)) c = hypot (py sv * w) (- (px sv * w))"
    by (simp add: distP_def add_def mul_def perp_def vec_def)
  then show ?thesis by (simp only: hypot_swap_neg)
qed

lemma stepSmoothVector_unit:
  assumes "stepSmoothVector pts i st = Some sv" and "sv \<noteq> vec 0 0"
  shows "hypot (px sv) (py sv) = 1"
proof -
  from assms(1) obtain v where "normalizeP (add v (prevVector st)) = Some sv"
    by (auto simp: stepSmoothVector_def split: Option.bind_splits)
  then show ?thesis using assms(2) by (rule normalizeP_unit)
qed

text \<open>
  C6: for every list of at least 2 points and settings with \<open>thinning = 0\<close> (and a
  size that is not negative, as the data model has it), the width computed at every
  point is \<open>size\<close> whatever the pressure, so every outline point whose smoothed direction
  vector is not the zero vector lies at distance exactly \<open>size / 2\<close> from its input
  point.
\<close>

theorem thinning_zero_width:
  assumes "thinning opts = 0" and "0 \<le> ssize opts"
    and "2 \<le> length pts" and "i < length pts"
  shows "(\<forall>p. strokeWidth opts p = ssize opts) \<and>
         (\<exists>st sv out.
            stateAt pts opts i = Some st \<and> stepSmoothVector pts i st = Some sv \<and>
            getStrokeOutlinePoints pts opts = Some out \<and>
            (sv \<noteq> vec 0 0 \<longrightarrow>
               distP (out ! i) (pts ! i) = ssize opts / 2 \<and>
               distP (out ! (2 * length pts - 1 - i)) (pts ! i) = ssize opts / 2))"
proof -
  have w: "strokeWidth opts p = ssize opts" for p
    using assms(1) by (simp add: strokeWidth_def)
  from outline_at [OF assms(3,4), of opts]
  obtain st p sv out where st: "stateAt pts opts i = Some st"
    and sv: "stepSmoothVector pts i st = Some sv"
    and out: "getStrokeOutlinePoints pts opts = Some out"
    and l: "out ! i = sub (pts ! i) (mul (perp sv) (strokeWidth opts p / 2))"
    and r: "out ! (2 * length pts - 1 - i) = add (pts ! i) (mul (perp sv) (strokeWidth opts p / 2))"
    by blast
  have "distP (out ! i) (pts ! i) = ssize opts / 2 \<and>
        distP (out ! (2 * length pts - 1 - i)) (pts ! i) = ssize opts / 2"
    if "sv \<noteq> vec 0 0"
  proof -
    have u: "hypot (px sv) (py sv) = 1"
      using sv that by (rule stepSmoothVector_unit)
    have "distP (out ! i) (pts ! i) = ssize opts / 2"
      unfolding l distP_left u w using assms(2) by simp
    moreover have "distP (out ! (2 * length pts - 1 - i)) (pts ! i) = ssize opts / 2"
      unfolding r distP_right u w using assms(2) by simp
    ultimately show ?thesis by (rule conjI)
  qed
  with w st sv out show ?thesis by blast
qed

theorem thinning_zero_width_witness:
  "thinning (INITIAL_SETTINGS\<lparr>thinning := 0\<rparr>) = 0 \<and>
   0 \<le> ssize (INITIAL_SETTINGS\<lparr>thinning := 0\<rparr>) \<and>
   2 \<le> length [vec 0 0, vec 1 0] \<and> 0 < length [vec 0 0, vec 1 0] \<and>
   (\<exists>st sv out.
      stateAt [vec 0 0, vec 1 0] (INITIAL_SETTINGS\<lparr>thinning := 0\<rparr>) 0 = Some st \<and>
      stepSmoothVector [vec 0 0, vec 1 0] 0 st = Some sv \<and> sv \<noteq> vec 0 0 \<and>
      getStrokeOutlinePoints [vec 0 0, vec 1 0] (INITIAL_SETTINGS\<lparr>thinning := 0\<rparr>) = Some out \<and>
      distP (out ! 0) (vec 0 0) = 7 \<and> distP (out ! 3) (vec 0 0) = 7)"
proof -
  let ?P = "[vec 0 0, vec 1 0]"
  let ?O = "INITIAL_SETTINGS\<lparr>thinning := 0\<rparr>"
  have h: "thinning ?O = 0" "0 \<le> ssize ?O" "2 \<le> length ?P" "0 < length ?P"
    by (simp_all add: INITIAL_SETTINGS_def)
  from thinning_zero_width [OF h]
  obtain st sv out where st: "stateAt ?P ?O 0 = Some st"
    and sv: "stepSmoothVector ?P 0 st = Some sv"
    and out: "getStrokeOutlinePoints ?P ?O = Some out"
    and d: "sv \<noteq> vec 0 0 \<longrightarrow>
               distP (out ! 0) (?P ! 0) = ssize ?O / 2 \<and>
               distP (out ! (2 * length ?P - 1 - 0)) (?P ! 0) = ssize ?O / 2"
    by blast
  have n10: "normalizeP (vec 1 0) = Some (vec 1 0)"
    by (simp add: normalizeP_cases hypot_axis vec_def)
  have n20: "normalizeP (vec 2 0) = Some (vec 1 0)"
    by (simp add: normalizeP_cases hypot_axis vec_def)
  have "prevVector st = vec 1 0"
    using st by (auto simp: stateAt_def initState_def sub_def vec_def n10 [unfolded vec_def])
  then have "sv = vec 1 0"
    using sv by (simp add: stepSmoothVector_def stepVector_def sub_def add_def vec_def
        n10 [unfolded vec_def] n20 [unfolded vec_def])
  then have nz: "sv \<noteq> vec 0 0" by (simp add: vec_def)
  with d have "distP (out ! 0) (vec 0 0) = 7 \<and> distP (out ! 3) (vec 0 0) = 7"
    by (simp add: INITIAL_SETTINGS_def)
  with h st sv nz out show ?thesis by blast
qed

subsection \<open>The path of an outline\<close>

lemma vec_sel: "px (vec a b) = a" "py (vec a b) = b"
  by (simp_all add: vec_def)

lemma svgLoop_concat:
  "svgLoop tf strokePoints js d = d @ concat (map (svgSegment tf strokePoints) js)"
  by (induction js arbitrary: d) simp_all

lemma svgSegment_render:
  "svgSegment tf outline i =
     renderSegment tf
       \<lparr>control = (px (outline ! i), py (outline ! i)),
        anchor = ((px (outline ! i) + px (outline ! ((i + 1) mod length outline))) / 2,
                  (py (outline ! i) + py (outline ! ((i + 1) mod length outline))) / 2)\<rparr>"
  by (simp add: svgSegment_def renderSegment_def Let_def vec_def)

lemma svg_segments_serialize:
  "map (svgSegment tf outline) [1..<length outline] =
     map (renderSegment tf) (serialize_spec outline)"
  by (simp add: serialize_spec_def svgSegment_render comp_def)

text \<open>
  C2: for every outline that is not empty, of length \<open>L\<close>, the path is the starting
  point, exactly \<open>L - 1\<close> curve segments and one closing instruction, where the segment
  for each index \<open>i\<close> from 1 to \<open>L - 1\<close> has the control point \<open>outline[i]\<close> and as
  anchor the midpoint of \<open>outline[i]\<close> and \<open>outline[(i + 1) mod L]\<close>; for the empty
  outline the path is empty.
\<close>

theorem svg_path_segments:
  "getSvgPathFromStroke tf [] = [] \<and>
   (outline \<noteq> [] \<longrightarrow>
      getSvgPathFromStroke tf outline =
        renderPath tf (px (outline ! 0), py (outline ! 0)) (serialize_spec outline) \<and>
      length (serialize_spec outline) = length outline - 1 \<and>
      (\<forall>i. 1 \<le> i \<and> i < length outline \<longrightarrow>
         control (serialize_spec outline ! (i - 1)) = (px (outline ! i), py (outline ! i)) \<and>
         anchor (serialize_spec outline ! (i - 1)) =
           ((px (outline ! i) + px (outline ! ((i + 1) mod length outline))) / 2,
            (py (outline ! i) + py (outline ! ((i + 1) mod length outline))) / 2)))"
proof -
  have empty: "getSvgPathFromStroke tf [] = []"
    by (simp add: getSvgPathFromStroke_def)
  have path: "getSvgPathFromStroke tf outline =
        renderPath tf (px (outline ! 0), py (outline ! 0)) (serialize_spec outline)"
    if "outline \<noteq> []"
    unfolding getSvgPathFromStroke_def renderPath_def Let_def svgLoop_concat
      svg_segments_serialize
    using that by simp
  have len: "length (serialize_spec outline) = length outline - 1"
    by (simp add: serialize_spec_def)
  have seg: "control (serialize_spec outline ! (i - 1)) = (px (outline ! i), py (outline ! i)) \<and>
         anchor (serialize_spec outline ! (i - 1)) =
           ((px (outline ! i) + px (outline ! ((i + 1) mod length outline))) / 2,
            (py (outline ! i) + py (outline ! ((i + 1) mod length outline))) / 2)"
    if "1 \<le> i \<and> i < length outline" for i
  proof -
    from that have "i - 1 < length outline - 1" by linarith
    then have "i - 1 < length [1..<length outline]" by simp
    moreover from that have "[1..<length outline] ! (i - 1) = i" by simp
    ultimately show ?thesis
      unfolding serialize_spec_def by (simp only: nth_map) simp
  qed
  from empty path len seg show ?thesis by blast
qed

theorem svg_path_segments_witness:
  "[vec 0 0, vec 2 0, vec 2 2] \<noteq> [] \<and>
   getSvgPathFromStroke
      (\<lambda>r. if r = 0 then ''0.00'' else if r = 1 then ''1.00'' else ''2.00'')
      [vec 0 0, vec 2 0, vec 2 2] =
     ''M 0.00 0.00 Q 2.00 0.00, 2.00 1.00 Q 2.00 2.00, 1.00 1.00 Z'' \<and>
   length (serialize_spec [vec 0 0, vec 2 0, vec 2 2]) = 2 \<and>
   (1::nat) \<le> 2 \<and> 2 < length [vec 0 0, vec 2 0, vec 2 2] \<and>
   control (serialize_spec [vec 0 0, vec 2 0, vec 2 2] ! 1) = (2, 2) \<and>
   anchor (serialize_spec [vec 0 0, vec 2 0, vec 2 2] ! 1) = (1, 1)"
proof -
  let ?P = "[vec 0 0, vec 2 0, vec 2 2]"
  let ?tf = "\<lambda>r::real. if r = 0 then ''0.00'' else if r = 1 then ''1.00'' else ''2.00''"
  have s: "serialize_spec ?P =
      [\<lparr>control = (2, 0), anchor = (2, 1)\<rparr>, \<lparr>control = (2, 2), anchor = (1, 1)\<rparr>]"
    by (simp add: serialize_spec_def vec_sel upt_rec)
  have ne: "?P \<noteq> []" by simp
  note t = svg_path_segments [of ?tf ?P, THEN conjunct2, rule_format, OF ne]
  have i: "(1::nat) \<le> 2 \<and> 2 < length ?P" by simp
  from t [THEN conjunct1]
  have "getSvgPathFromStroke ?tf ?P =
      ''M 0.00 0.00 Q 2.00 0.00, 2.00 1.00 Q 2.00 2.00, 1.00 1.00 Z''"
    by (simp add: s renderPath_def renderSegment_def vec_sel)
  moreover from t [THEN conjunct2, THEN conjunct1]
  have "length (serialize_spec ?P) = 2" by simp
  moreover from t [THEN conjunct2, THEN conjunct2, rule_format, OF i]
  have "control (serialize_spec ?P ! 1) = (2, 2) \<and> anchor (serialize_spec ?P ! 1) = (1, 1)"
    by (simp add: vec_sel)
  ultimately show ?thesis using ne i by blast
qed

subsection \<open>Simulated pressure\<close>

lemma pointerVelocity_eq:
  "pointerVelocity x y t lst =
     Some (hypot (x - px lst) (y - py lst) /
           (if t - priorTime lst = 0 then 1 else t - priorTime lst))"
  by (simp add: pointerVelocity_def jsDiv_def Let_def)

lemma getPoint_eq:
  "getPoint e rect t buf =
     Some \<lparr>px = clientX e - rectLeft rect, py = clientY e - rectTop rect,
           pressure = Some
             (if evPressure e = 0 \<or> evPressure e = 1 / 2 then
                (if buf = [] then 1 / 2
                 else velocityPressure
                        (hypot (clientX e - rectLeft rect - px (last buf))
                               (clientY e - rectTop rect - py (last buf)) /
                         (if t - priorTime (last buf) = 0 then 1 else t - priorTime (last buf))))
              else evPressure e),
           time = Some t\<rparr>"
  by (simp add: getPoint_def pointerVelocity_eq Let_def last_conv_nth)

text \<open>
  C3: for every sample whose raw pressure is exactly 0 or exactly 0.5 (the pressure of
  a pointer event is a number and cannot be absent): without prior points the pressure
  is 0.5; otherwise it is 1 minus \<open>min(velocity, 2.5) / 2.5\<close>, clamped to
  \<open>[0.1, 1.0]\<close>, where the velocity is the Euclidean distance to the last prior point
  divided by the elapsed time (the time of the sample minus the time of that point, 1
  standing in for an elapsed time of 0). Any other raw pressure is returned unchanged.
\<close>

theorem getPoint_pressure:
  "\<exists>p. getPoint e rect t buf = Some p \<and>
        px p = clientX e - rectLeft rect \<and> py p = clientY e - rectTop rect \<and>
        pressure p = Some
          (if evPressure e = 0 \<or> evPressure e = 1 / 2 then
             (if buf = [] then 1 / 2
              else let d = sqrt ((px p - px (last buf)) ^ 2 + (py p - py (last buf)) ^ 2);
                       elapsed = t - priorTime (last buf);
                       velocity = d / (if elapsed = 0 then 1 else elapsed)
                   in max (1 / 10) (min 1 (1 - min velocity (5 / 2) / (5 / 2))))
           else evPressure e)"
  by (simp add: getPoint_eq velocityPressure_def hypot_def Let_def power2_eq_square)

theorem getPoint_pressure_witness:
  "\<exists>p. getPoint \<lparr>clientX = 13, clientY = 24, evPressure = 1 / 2\<rparr>
             \<lparr>rectLeft = 10, rectTop = 20\<rparr> 7
             [\<lparr>px = 0, py = 0, pressure = Some (1 / 10), time = Some 3\<rparr>] = Some p \<and>
        px p = 3 \<and> py p = 4 \<and> pressure p = Some (1 / 2)"
proof -
  have s: "sqrt 25 = 5"
    using real_sqrt_abs [of 5] by simp
  from getPoint_pressure [of "\<lparr>clientX = 13, clientY = 24, evPressure = 1 / 2\<rparr>"
      "\<lparr>rectLeft = 10, rectTop = 20\<rparr>" 7
      "[\<lparr>px = 0, py = 0, pressure = Some (1 / 10), time = Some 3\<rparr>]"]
  show ?thesis
    by (auto simp: priorTime_def Let_def s)
qed

text \<open>
  C4, as the source has it: with a prior point, the divisor of the velocity is the
  elapsed time \<open>t - priorTime\<close> (\<open>priorTime\<close> being 0 when the last prior point has
  no time), and 1 only when that difference is exactly 0. So the velocity is the
  distance divided by 1 when the two times are identical, and the divisor is
  \<open>max(t - priorTime, 1)\<close> whenever \<open>t - priorTime\<close> is at least 1.
\<close>

theorem velocity_divisor:
  "pointerVelocity x y t lst =
     Some (hypot (x - px lst) (y - py lst) /
           (if t - priorTime lst = 0 then 1 else t - priorTime lst)) \<and>
   priorTime lst = (case time lst of None \<Rightarrow> 0 | Some v \<Rightarrow> v) \<and>
   (t - priorTime lst = 0 \<longrightarrow>
      pointerVelocity x y t lst = Some (hypot (x - px lst) (y - py lst) / 1)) \<and>
   (1 \<le> t - priorTime lst \<longrightarrow>
      pointerVelocity x y t lst =
        Some (hypot (x - px lst) (y - py lst) / max (t - priorTime lst) 1))"
  by (auto simp: pointerVelocity_eq priorTime_def split: option.splits)

theorem velocity_divisor_witness:
  "(5 - priorTime \<lparr>px = 0, py = 0, pressure = None, time = Some 5\<rparr> = 0 \<and>
    pointerVelocity 3 0 5 \<lparr>px = 0, py = 0, pressure = None, time = Some 5\<rparr> = Some 3) \<and>
   (1 \<le> 7 - priorTime \<lparr>px = 0, py = 0, pressure = None, time = Some 5\<rparr> \<and>
    pointerVelocity 3 0 7 \<lparr>px = 0, py = 0, pressure = None, time = Some 5\<rparr> = Some (3 / 2))"
  using velocity_divisor [of 3 0 5 "\<lparr>px = 0, py = 0, pressure = None, time = Some 5\<rparr>"]
    velocity_divisor [of 3 0 7 "\<lparr>px = 0, py = 0, pressure = None, time = Some 5\<rparr>"]
  by (simp add: priorTime_def hypot_axis)

text \<open>
  The claim C4 as it is written fails for an elapsed time of half a unit: the source
  divides the distance 1 by 0.5, not by \<open>max(0.5, 1)\<close>, and the pressure of the sample
  is 0.2 where a velocity of 1 would give 0.6.
\<close>

theorem velocity_divisor_counterexample:
  "3 / 2 - priorTime \<lparr>px = 0, py = 0, pressure = Some (1 / 10), time = Some 1\<rparr> < 1 \<and>
   pointerVelocity 1 0 (3 / 2) \<lparr>px = 0, py = 0, pressure = Some (1 / 10), time = Some 1\<rparr>
     \<noteq> Some (hypot (1 - 0) (0 - 0) / 1) \<and>
   pointerVelocity 1 0 (3 / 2) \<lparr>px = 0, py = 0, pressure = Some (1 / 10), time = Some 1\<rparr>
     = Some 2 \<and>
   hypot (1 - 0) (0 - 0) /
     max (3 / 2 - priorTime \<lparr>px = 0, py = 0, pressure = Some (1 / 10), time = Some 1\<rparr>) 1 = 1 \<and>
   getPoint \<lparr>clientX = 1, clientY = 0, evPressure = 1 / 2\<rparr> \<lparr>rectLeft = 0, rectTop = 0\<rparr>
       (3 / 2) [\<lparr>px = 0, py = 0, pressure = Some (1 / 10), time = Some 1\<rparr>]
     = Some \<lparr>px = 1, py = 0, pressure = Some (1 / 5), time = Some (3 / 2)\<rparr> \<and>
   velocityPressure 1 = 3 / 5"
  by (simp add: pointerVelocity_eq getPoint_eq priorTime_def hypot_axis velocityPressure_def)

subsection \<open>Duplicate points\<close>

lemma normalizeP_zero: "px a = 0 \<Longrightarrow> py a = 0 \<Longrightarrow> normalizeP a = Some (vec 0 0)"
  by (simp add: normalizeP_cases hypot_def)

lemma distP_eq_0_iff: "distP a b = 0 \<longleftrightarrow> px a = px b \<and> py a = py b"
  by (simp add: distP_def hypot_eq_0_iff)

lemma stepVector_dup:
  assumes "\<forall>i. i + 1 < length pts \<longrightarrow> distP (pts ! (i + 1)) (pts ! i) = 0"
    and "prevVector st = vec 0 0"
  shows "stepVector pts i st = Some (vec 0 0)"
proof (cases "int i < int (length pts) - 1")
  case True
  then have "i + 1 < length pts" by linarith
  with assms(1) have "distP (pts ! (i + 1)) (pts ! i) = 0" by blast
  then have "normalizeP (sub (pts ! (i + 1)) (pts ! i)) = Some (vec 0 0)"
    by (intro normalizeP_zero) (simp_all add: distP_eq_0_iff sub_def vec_sel)
  with True show ?thesis by (simp add: stepVector_def)
next
  case False
  with assms(2) show ?thesis by (simp add: stepVector_def)
qed

lemma stateAt_dup:
  assumes dup: "\<forall>i. i + 1 < length pts \<longrightarrow> distP (pts ! (i + 1)) (pts ! i) = 0"
    and n: "2 \<le> length pts"
  shows "i \<le> length pts \<Longrightarrow> stateAt pts opts i = Some st \<Longrightarrow> prevVector st = vec 0 0"
proof (induction i arbitrary: st)
  case 0
  from dup n have "distP (pts ! (0 + 1)) (pts ! 0) = 0" by (intro dup [rule_format]) simp
  then have "normalizeP (sub (pts ! 1) (pts ! 0)) = Some (vec 0 0)"
    by (intro normalizeP_zero) (simp_all add: distP_eq_0_iff sub_def vec_sel)
  with 0 show ?case by (auto simp: stateAt_def initState_def)
next
  case (Suc i)
  then have i: "i < length pts" by simp
  obtain st0 where st0: "stateAt pts opts i = Some st0"
    using stateAt_total [of i pts opts] i by auto
  with Suc.IH i have pv: "prevVector st0 = vec 0 0" by simp
  from outlineStep_Some [OF i, of st0 opts]
  obtain v where v: "stepVector pts i st0 = Some v"
    and step: "prevVector (the (outlineStep pts opts i st0)) = v"
    by force
  from Suc.prems(2) st0 have "outlineStep pts opts i st0 = Some st"
    by (simp add: stateAt_Suc)
  with step v stepVector_dup [OF dup pv, of i] show ?case by simp
qed

lemma outline_dup:
  assumes dup: "\<forall>i. i + 1 < length pts \<longrightarrow> distP (pts ! (i + 1)) (pts ! i) = 0"
    and n: "2 \<le> length pts" and i: "i < length pts"
  shows "\<exists>out. getStrokeOutlinePoints pts opts = Some out \<and>
           out ! i = vec (px (pts ! i)) (py (pts ! i)) \<and>
           out ! (2 * length pts - 1 - i) = vec (px (pts ! i)) (py (pts ! i))"
proof -
  from outline_at [OF n i, of opts]
  obtain st p sv out where st: "stateAt pts opts i = Some st"
    and sv: "stepSmoothVector pts i st = Some sv"
    and out: "getStrokeOutlinePoints pts opts = Some out"
    and l: "out ! i = sub (pts ! i) (mul (perp sv) (strokeWidth opts p / 2))"
    and r: "out ! (2 * length pts - 1 - i) = add (pts ! i) (mul (perp sv) (strokeWidth opts p / 2))"
    by blast
  have pv: "prevVector st = vec 0 0"
    using stateAt_dup [OF dup n _ st] i by simp
  have "stepVector pts i st = Some (vec 0 0)"
    using dup pv by (rule stepVector_dup)
  with sv pv have "normalizeP (add (vec 0 0) (vec 0 0)) = Some sv"
    by (simp add: stepSmoothVector_def)
  then have sv0: "sv = vec 0 0"
    by (simp add: normalizeP_zero add_def vec_sel)
  have off: "mul (perp (vec 0 0)) w = vec 0 0" for w
    by (simp add: mul_def perp_def vec_sel)
  have "out ! i = vec (px (pts ! i)) (py (pts ! i))"
    unfolding l sv0 off by (simp add: sub_def vec_sel)
  moreover have "out ! (2 * length pts - 1 - i) = vec (px (pts ! i)) (py (pts ! i))"
    unfolding r sv0 off by (simp add: add_def vec_sel)
  ultimately show ?thesis using out by blast
qed

lemma getStrokeOutlinePoints_total: "\<exists>out. getStrokeOutlinePoints pts opts = Some out"
proof (cases "length pts < 2")
  case True
  then show ?thesis by (simp add: getStrokeOutlinePoints_def)
next
  case False
  then have "2 \<le> length pts" and "0 < length pts" by linarith+
  from outline_at [OF this, of opts] show ?thesis by blast
qed

text \<open>
  C8: normalizing the zero vector gives \<open>(0,0)\<close>; pressure estimation and outline
  building never divide by zero and always return a value (\<open>None\<close> stands for the
  \<open>NaN\<close> or \<open>Infinity\<close> of a division by zero). For a sample at distance zero from
  the last prior point the simulated pressure is 1; for a stroke whose consecutive
  points are at distance zero every offset is \<open>(0,0)\<close>, so the left and the right
  outline point of each input point are that point (zero width).
\<close>

theorem zero_vector_total:
  "normalizeP (vec 0 0) = Some (vec 0 0) \<and>
   (\<forall>a. \<exists>v. normalizeP a = Some v) \<and>
   (\<forall>e rect t buf. \<exists>p v. getPoint e rect t buf = Some p \<and> pressure p = Some v) \<and>
   (\<forall>e rect t buf.
      buf \<noteq> [] \<and> (evPressure e = 0 \<or> evPressure e = 1 / 2) \<and>
      distP (vec (clientX e - rectLeft rect) (clientY e - rectTop rect)) (last buf) = 0 \<longrightarrow>
      (\<exists>p. getPoint e rect t buf = Some p \<and> pressure p = Some 1)) \<and>
   (\<forall>pts opts. \<exists>out. getStrokeOutlinePoints pts opts = Some out) \<and>
   (\<forall>pts opts i.
      2 \<le> length pts \<and> i < length pts \<and>
      (\<forall>k. k + 1 < length pts \<longrightarrow> distP (pts ! (k + 1)) (pts ! k) = 0) \<longrightarrow>
      (\<exists>out. getStrokeOutlinePoints pts opts = Some out \<and>
         out ! i = vec (px (pts ! i)) (py (pts ! i)) \<and>
         out ! (2 * length pts - 1 - i) = vec (px (pts ! i)) (py (pts ! i))))"
proof -
  have 1: "normalizeP (vec 0 0) = Some (vec 0 0)"
    by (simp add: normalizeP_zero vec_sel)
  have 2: "\<forall>a. \<exists>v. normalizeP a = Some v"
    by (simp add: normalizeP_total)
  have 3: "\<forall>e rect t buf. \<exists>p v. getPoint e rect t buf = Some p \<and> pressure p = Some v"
    by (simp add: getPoint_eq)
  have 4: "\<exists>p. getPoint e rect t buf = Some p \<and> pressure p = Some 1"
    if "buf \<noteq> [] \<and> (evPressure e = 0 \<or> evPressure e = 1 / 2) \<and>
      distP (vec (clientX e - rectLeft rect) (clientY e - rectTop rect)) (last buf) = 0"
    for e rect t buf
  proof -
    from that have "hypot (clientX e - rectLeft rect - px (last buf))
        (clientY e - rectTop rect - py (last buf)) = 0"
      by (simp add: distP_def vec_sel)
    with that show ?thesis
      by (simp add: getPoint_eq velocityPressure_def)
  qed
  have 5: "\<forall>pts opts. \<exists>out. getStrokeOutlinePoints pts opts = Some out"
    by (simp add: getStrokeOutlinePoints_total)
  have 6: "\<exists>out. getStrokeOutlinePoints pts opts = Some out \<and>
         out ! i = vec (px (pts ! i)) (py (pts ! i)) \<and>
         out ! (2 * length pts - 1 - i) = vec (px (pts ! i)) (py (pts ! i))"
    if "2 \<le> length pts \<and> i < length pts \<and>
      (\<forall>k. k + 1 < length pts \<longrightarrow> distP (pts ! (k + 1)) (pts ! k) = 0)"
    for pts opts i
    using that outline_dup [of pts i opts] by blast
  from 1 2 3 4 5 6 show ?thesis by blast
qed

theorem zero_vector_total_witness:
  "([\<lparr>px = 3, py = 4, pressure = Some (1 / 10), time = Some 5\<rparr>] \<noteq> [] \<and>
      evPressure \<lparr>clientX = 13, clientY = 24, evPressure = 1 / 2\<rparr> = 1 / 2 \<and>
      distP (vec (13 - 10) (24 - 20))
        (last [\<lparr>px = 3, py = 4, pressure = Some (1 / 10), time = Some 5\<rparr>]) = 0 \<and>
      (\<exists>p. getPoint \<lparr>clientX = 13, clientY = 24, evPressure = 1 / 2\<rparr>
              \<lparr>rectLeft = 10, rectTop = 20\<rparr> 5
              [\<lparr>px = 3, py = 4, pressure = Some (1 / 10), time = Some 5\<rparr>] = Some p \<and>
           pressure p = Some 1)) \<and>
   (2 \<le> length [vec 1 1, vec 1 1] \<and> 0 < length [vec 1 1, vec 1 1] \<and>
      distP ([vec 1 1, vec 1 1] ! 1) ([vec 1 1, vec 1 1] ! 0) = 0 \<and>
      (\<exists>out. getStrokeOutlinePoints [vec 1 1, vec 1 1] INITIAL_SETTINGS = Some out \<and>
           out ! 0 = vec 1 1 \<and> out ! 3 = vec 1 1))"
proof -
  let ?E = "\<lparr>clientX = 13, clientY = 24, evPressure = 1 / 2\<rparr>"
  let ?R = "\<lparr>rectLeft = 10, rectTop = 20\<rparr>"
  let ?B = "[\<lparr>px = 3, py = 4, pressure = Some (1 / 10), time = Some 5\<rparr>]"
  let ?P = "[vec 1 1, vec 1 1]"
  have a: "?B \<noteq> [] \<and> (evPressure ?E = 0 \<or> evPressure ?E = 1 / 2) \<and>
      distP (vec (clientX ?E - rectLeft ?R) (clientY ?E - rectTop ?R)) (last ?B) = 0"
    by (simp add: distP_eq_0_iff vec_sel)
  have d: "distP (?P ! (k + 1)) (?P ! k) = 0" if "k + 1 < length ?P" for k
  proof -
    from that have "k = 0" by simp
    then show ?thesis by (simp add: distP_eq_0_iff)
  qed
  then have b: "2 \<le> length ?P \<and> 0 < length ?P \<and>
      (\<forall>k. k + 1 < length ?P \<longrightarrow> distP (?P ! (k + 1)) (?P ! k) = 0)"
    by simp
  note t = zero_vector_total
  from t [THEN conjunct2, THEN conjunct2, THEN conjunct2, THEN conjunct1, rule_format, OF a, of 5]
  have 1: "\<exists>p. getPoint ?E ?R 5 ?B = Some p \<and> pressure p = Some 1" .
  from t [THEN conjunct2, THEN conjunct2, THEN conjunct2, THEN conjunct2, THEN conjunct2,
      rule_format, OF b, of INITIAL_SETTINGS]
  have 2: "\<exists>out. getStrokeOutlinePoints ?P INITIAL_SETTINGS = Some out \<and>
           out ! 0 = vec 1 1 \<and> out ! 3 = vec 1 1"
    by (simp add: vec_sel)
  from a 1 2 d [of 0] show ?thesis by (simp add: vec_sel)
qed

subsection \<open>Smoothed pressure\<close>






subsection \<open>Committing a stroke\<close>

text \<open>Without a stroke being drawn, pointer-up changes nothing.\<close>

lemma pointer_up_idle: "\<not> isDrawing s \<Longrightarrow> handlePointerUp s = s"
  by (simp add: handlePointerUp_def)

text \<open>
  C9: on pointer-up while a stroke is being drawn, the stroke is appended to the
  history if and only if it has at least 2 points; a stroke of 0 or 1 points is dropped:
  the history and the redo stack are left as they are and nothing is drawn for it. In
  both cases the stroke in progress is cleared.
\<close>

theorem pointer_up_commit:
  assumes "isDrawing s"
  shows "(history (handlePointerUp s) =
            history s @ [\<lparr>ds_points = currentPoints s,
                           ds_color = (if tool s = ERASER then ''eraser'' else color (settings s)),
                           ds_settings = settings s\<rparr>]
          \<longleftrightarrow> 2 \<le> length (currentPoints s)) \<and>
         (length (currentPoints s) < 2 \<longrightarrow>
            history (handlePointerUp s) = history s \<and>
            redoStack (handlePointerUp s) = redoStack s \<and>
            drawStrokeToCtx tf (currentPoints s) col opts = Some Nothing) \<and>
         currentPoints (handlePointerUp s) = [] \<and> \<not> isDrawing (handlePointerUp s)"
  using assms
  by (auto simp: handlePointerUp_def handleHistoryChange_def newStroke_def Let_def
      drawStrokeToCtx_def)

theorem pointer_up_commit_witness:
  "(isDrawing \<lparr>history = [], redoStack = [], settings = INITIAL_SETTINGS, tool = PEN,
                currentPoints = [vec 0 0, vec 5 0], isDrawing = True\<rparr> \<and>
    history (handlePointerUp
       \<lparr>history = [], redoStack = [], settings = INITIAL_SETTINGS, tool = PEN,
        currentPoints = [vec 0 0, vec 5 0], isDrawing = True\<rparr>) =
      [\<lparr>ds_points = [vec 0 0, vec 5 0], ds_color = color INITIAL_SETTINGS,
        ds_settings = INITIAL_SETTINGS\<rparr>]) \<and>
   (isDrawing \<lparr>history = [], redoStack = [], settings = INITIAL_SETTINGS, tool = PEN,
                currentPoints = [vec 0 0], isDrawing = True\<rparr> \<and>
    length [vec 0 0] < 2 \<and>
    history (handlePointerUp
       \<lparr>history = [], redoStack = [], settings = INITIAL_SETTINGS, tool = PEN,
        currentPoints = [vec 0 0], isDrawing = True\<rparr>) = [] \<and>
    drawStrokeToCtx (\<lambda>r. ''0.00'') [vec 0 0] (color INITIAL_SETTINGS) INITIAL_SETTINGS =
      Some Nothing)"
  using pointer_up_commit [of "\<lparr>history = [], redoStack = [], settings = INITIAL_SETTINGS,
        tool = PEN, currentPoints = [vec 0 0, vec 5 0], isDrawing = True\<rparr>"
      "\<lambda>r. ''0.00''" "color INITIAL_SETTINGS" INITIAL_SETTINGS]
    pointer_up_commit [of "\<lparr>history = [], redoStack = [], settings = INITIAL_SETTINGS,
        tool = PEN, currentPoints = [vec 0 0], isDrawing = True\<rparr>"
      "\<lambda>r. ''0.00''" "color INITIAL_SETTINGS" INITIAL_SETTINGS]
  by simp

end
